theory Spec2Isabelle
  imports Complex_Main "HOL-Library.AList" "HOL-Library.FSet" "HOL-Library.Char_ord"
    "HOL-Library.List_Lexorder"
begin

section \<open>Python values, errors and slices\<close>

text \<open>
  Exceptions are values: every function that can raise returns \<open>error + 'a\<close>, with
  \<open>Inl\<close> the exception. \<open>exception_name\<close> is the name of the Python class raised.
  Floats are modelled by real numbers (rounding is abstracted); a JSON scalar is a
  \<open>pyval\<close>; a recipe dictionary is an association list in insertion order, updated
  with \<open>AList.update\<close> as Python's item assignment does.
\<close>

datatype error = ValueError string | AttributeError | IndexError | ZeroDivisionError

fun exception_name :: "error \<Rightarrow> string" where
  "exception_name (ValueError msg) = ''ValueError''"
| "exception_name AttributeError = ''AttributeError''"
| "exception_name IndexError = ''IndexError''"
| "exception_name ZeroDivisionError = ''ZeroDivisionError''"

datatype pyval = PStr string | PNum real | PNone

type_synonym recipe = "(string \<times> pyval) list"

definition dict_get :: "recipe \<Rightarrow> string \<Rightarrow> pyval \<Rightarrow> pyval" where
  "dict_get d key dflt = (case map_of d key of Some v \<Rightarrow> v | None \<Rightarrow> dflt)"

text \<open>\<open>xs[start:]\<close> and \<open>xs[:stop]\<close>: a negative bound counts from the end, and
  every bound is clipped to the list.\<close>

definition slice_from :: "int \<Rightarrow> 'a list \<Rightarrow> 'a list" where
  "slice_from start xs =
     (let n = int (length xs);
          s = (if start < 0 then max (n + start) 0 else min start n)
      in drop (nat s) xs)"

definition slice_to :: "int \<Rightarrow> 'a list \<Rightarrow> 'a list" where
  "slice_to stop xs =
     (let n = int (length xs);
          e = (if stop < 0 then max (n + stop) 0 else min stop n)
      in take (nat e) xs)"

definition truediv :: "real \<Rightarrow> real \<Rightarrow> error + real" where
  "truediv a b = (if b = 0 then Inl ZeroDivisionError else Inr (a / b))"

text \<open>\<open>str.lower\<close> on ASCII text.\<close>

definition lower_char :: "char \<Rightarrow> char" where
  "lower_char c =
     (case map_of (zip ''ABCDEFGHIJKLMNOPQRSTUVWXYZ'' ''abcdefghijklmnopqrstuvwxyz'') c of
        Some l \<Rightarrow> l | None \<Rightarrow> c)"

definition lower :: "string \<Rightarrow> string" where
  "lower s = map lower_char s"

section \<open>The library calls of \<open>retrieval.py\<close>\<close>

subsection \<open>The analyzer of the vectorizer\<close>

text \<open>
  \<open>TfidfVectorizer(ngram_range=(1, 2), stop_words='english', lowercase=True)\<close> analyses
  a document by lower-casing it, taking the matches of the token pattern
  \<open>\b\w\w+\b\<close> (the maximal runs of word characters that are at least two characters
  long), dropping the stop words and appending the bigrams of what is left to the
  unigrams. Text is ASCII: the word characters are the letters, the digits and the
  underscore. The stop-word table \<open>'english'\<close> is a parameter of the model.
\<close>

definition is_word_char :: "char \<Rightarrow> bool" where
  "is_word_char c \<longleftrightarrow>
     c \<in> set ''abcdefghijklmnopqrstuvwxyzABCDEFGHIJKLMNOPQRSTUVWXYZ0123456789_''"

fun word_runs :: "string \<Rightarrow> string \<Rightarrow> string list" where
  "word_runs [] cur = (if cur = [] then [] else [cur])"
| "word_runs (c # cs) cur =
     (if is_word_char c then word_runs cs (cur @ [c])
      else (if cur = [] then [] else [cur]) @ word_runs cs [])"

definition tokenize :: "string \<Rightarrow> string list" where
  "tokenize text = filter (\<lambda>w. 2 \<le> length w) (word_runs text [])"

definition word_ngrams :: "string list \<Rightarrow> string list \<Rightarrow> string list" where
  "word_ngrams stop_words tokens =
     (let original_tokens = filter (\<lambda>w. w \<notin> set stop_words) tokens
      in original_tokens @
         map (\<lambda>(a, b). a @ '' '' @ b) (zip original_tokens (tl original_tokens)))"

definition analyze :: "string list \<Rightarrow> string \<Rightarrow> string list" where
  "analyze stop_words doc = word_ngrams stop_words (tokenize (lower doc))"


subsection \<open>\<open>numpy.argsort\<close>\<close>

text \<open>
  The indices that sort the array in ascending order. numpy's default sort promises no
  order among equal keys; the model lists them in index order. The properties below
  use only that the list is a permutation of the indices in ascending order of the
  keys; the two-recipe example of claim C2 alone evaluates a tie.
\<close>

definition argsort :: "('a::linorder) list \<Rightarrow> nat list" where
  "argsort a = sort_key (\<lambda>i. a ! i) [0..<length a]"

subsection \<open>\<open>TfidfVectorizer.fit_transform\<close>, \<open>transform\<close> and \<open>cosine_similarity\<close>\<close>

text \<open>
  A fitted vectorizer holds its vocabulary (the term of column \<open>j\<close> at position
  \<open>j\<close>) and the smoothed inverse document frequencies. Fitting counts the terms,
  raises \<open>ValueError\<close> on an empty vocabulary, sorts the terms, keeps those that
  occur in at least \<open>min_df\<close> documents (at most \<open>max_features\<close> of them, by
  total count) and raises \<open>ValueError\<close> when none is left; the rows are weighted by
  \<open>ln ((1 + n) / (1 + df)) + 1\<close> and scaled to unit length, a zero row staying zero.
\<close>

record TfidfVectorizer =
  stop_words :: "string list"
  fitted_vocabulary :: "string list"
  fitted_idf :: "real list"

definition max_features :: nat where "max_features = 5000"
definition min_df :: nat where "min_df = 2"
definition max_df :: real where "max_df = 1"

fun as_documents :: "pyval list \<Rightarrow> error + string list" where
  "as_documents [] = Inr []"
| "as_documents (PStr s # rest) =
     (case as_documents rest of Inl e \<Rightarrow> Inl e | Inr docs \<Rightarrow> Inr (s # docs))"
| "as_documents (v # rest) = Inl AttributeError"

definition count_features :: "string list \<Rightarrow> string list \<Rightarrow> nat list" where
  "count_features vocabulary features = map (\<lambda>t. count_list features t) vocabulary"

definition count_vocab :: "string list \<Rightarrow> string list \<Rightarrow> error + (string list \<times> nat list list)" where
  "count_vocab stop raw_documents =
     (let analyzed = map (analyze stop) raw_documents;
          vocabulary = rev (remdups (rev (concat analyzed)))
      in if vocabulary = []
         then Inl (ValueError ''empty vocabulary; perhaps the documents only contain stop words'')
         else Inr (vocabulary, map (count_features vocabulary) analyzed))"

definition column_of :: "string list \<Rightarrow> string \<Rightarrow> nat" where
  "column_of vocabulary t = length (takeWhile (\<lambda>u. u \<noteq> t) vocabulary)"

definition select_columns :: "nat list \<Rightarrow> 'a list list \<Rightarrow> 'a list list" where
  "select_columns cols X = map (\<lambda>row. map (\<lambda>j. row ! j) cols) X"

definition sort_features :: "nat list list \<Rightarrow> string list \<Rightarrow> string list \<times> nat list list" where
  "sort_features X vocabulary =
     (let sorted_features = sort vocabulary
      in (sorted_features, select_columns (map (column_of vocabulary) sorted_features) X))"

definition document_frequency :: "nat list list \<Rightarrow> nat \<Rightarrow> nat" where
  "document_frequency X j = length (filter (\<lambda>row. 0 < row ! j) X)"

definition limit_features ::
  "nat list list \<Rightarrow> string list \<Rightarrow> real \<Rightarrow> real \<Rightarrow> nat \<Rightarrow> error + (string list \<times> nat list list)" where
  "limit_features X vocabulary high low limit =
     (let cols = [0..<length vocabulary];
          masked = filter (\<lambda>j. real (document_frequency X j) \<le> high \<and>
                                 low \<le> real (document_frequency X j)) cols;
          kept_indices =
            (if limit < length masked
             then let tfs = map (\<lambda>j. sum_list (map (\<lambda>row. row ! j) X)) masked;
                      mask_inds = take limit (argsort (map (\<lambda>t. - int t) tfs))
                  in filter (\<lambda>j. j \<in> set (map (\<lambda>p. masked ! p) mask_inds)) cols
             else masked)
      in if kept_indices = []
         then Inl (ValueError ''After pruning, no terms remain. Try a lower min_df or a higher max_df.'')
         else Inr (map (\<lambda>j. vocabulary ! j) kept_indices, select_columns kept_indices X))"

definition normalize :: "real list \<Rightarrow> real list" where
  "normalize row =
     (let norm = sqrt (sum_list (map (\<lambda>x. x * x) row))
      in if norm = 0 then row else map (\<lambda>x. x / norm) row)"

definition tfidf_transform :: "real list \<Rightarrow> nat list list \<Rightarrow> real list list" where
  "tfidf_transform idf X = map (\<lambda>row. normalize (map (\<lambda>(c, w). real c * w) (zip row idf))) X"

definition fit_transform ::
  "string list \<Rightarrow> pyval list \<Rightarrow> error + (TfidfVectorizer \<times> real list list)" where
  "fit_transform stop raw_documents =
     (case as_documents raw_documents of Inl e \<Rightarrow> Inl e | Inr docs \<Rightarrow>
      case count_vocab stop docs of Inl e \<Rightarrow> Inl e | Inr (vocabulary, X) \<Rightarrow>
        let n_doc = length X;
            max_doc_count = max_df * real n_doc;
            min_doc_count = real min_df
        in if max_doc_count < min_doc_count
           then Inl (ValueError ''max_df corresponds to < documents than min_df'')
           else
             case sort_features X vocabulary of (vocabulary, X) \<Rightarrow>
             case limit_features X vocabulary max_doc_count min_doc_count max_features of
               Inl e \<Rightarrow> Inl e
             | Inr (vocabulary, X) \<Rightarrow>
                 let idf = map (\<lambda>j. ln ((1 + real n_doc) / (1 + real (document_frequency X j))) + 1)
                               [0..<length vocabulary]
                 in Inr (\<lparr>stop_words = stop, fitted_vocabulary = vocabulary, fitted_idf = idf\<rparr>,
                         tfidf_transform idf X))"

definition transform :: "TfidfVectorizer \<Rightarrow> string list \<Rightarrow> real list list" where
  "transform v raw_documents =
     tfidf_transform (fitted_idf v)
       (map (\<lambda>doc. count_features (fitted_vocabulary v) (analyze (stop_words v) doc)) raw_documents)"

definition dot :: "real list \<Rightarrow> real list \<Rightarrow> real" where
  "dot x y = sum_list (map (\<lambda>(a, b). a * b) (zip x y))"

definition cosine_similarity :: "real list list \<Rightarrow> real list list \<Rightarrow> error + real list list" where
  "cosine_similarity X Y =
     (if X = [] \<or> Y = [] then Inl (ValueError ''Found array with 0 sample(s)'')
      else if hd X = [] \<or> hd Y = [] then Inl (ValueError ''Found array with 0 feature(s)'')
      else if length (hd X) \<noteq> length (hd Y)
      then Inl (ValueError ''Incompatible dimension for X and Y matrices'')
      else Inr (map (\<lambda>x. map (\<lambda>y. dot (normalize x) (normalize y)) Y) X))"


section \<open>\<open>retrieval.py\<close>: the class \<open>RecipeRetriever\<close>\<close>

text \<open>
  Dictionaries are mutable objects: the heap is the list of all dictionary objects, an
  address is a position in it, and \<open>self.recipes\<close> is a list of addresses.
  \<open>d.copy()\<close> allocates a new object at the end of the heap.
\<close>

type_synonym addr = nat

record RecipeRetriever =
  recipes :: "addr list"
  vectorizer :: TfidfVectorizer
  tfidf_matrix :: "real list list"

record pystate =
  heap :: "recipe list"
  retriever :: RecipeRetriever

definition build_index ::
  "string list \<Rightarrow> recipe list \<Rightarrow> addr list \<Rightarrow> error + (TfidfVectorizer \<times> real list list)" where
  "build_index english h rs =
     (let documents = map (\<lambda>a. dict_get (h ! a) ''searchable_text'' (PStr [])) rs
      in fit_transform english documents)"

text \<open>\<open>__init__\<close>, from the list that \<open>json.load\<close> returned.\<close>

definition RecipeRetriever_init :: "string list \<Rightarrow> recipe list \<Rightarrow> error + pystate" where
  "RecipeRetriever_init english loaded =
     (let rs = [0..<length loaded]
      in case build_index english loaded rs of
           Inl e \<Rightarrow> Inl e
         | Inr (v, m) \<Rightarrow>
             Inr \<lparr>heap = loaded,
                  retriever = \<lparr>recipes = rs, vectorizer = v, tfidf_matrix = m\<rparr>\<rparr>)"

text \<open>The first two statements of \<open>retrieve_recipes\<close>: the flattened similarities.\<close>

definition query_similarities :: "RecipeRetriever \<Rightarrow> string \<Rightarrow> error + real list" where
  "query_similarities slf query =
     (let query_vector = transform (vectorizer slf) [lower query]
      in case cosine_similarity query_vector (tfidf_matrix slf) of
           Inl e \<Rightarrow> Inl e
         | Inr sim \<Rightarrow> Inr (concat sim))"

text \<open>\<open>np.argsort(similarities)[-k:][::-1]\<close>\<close>

definition top_k_indices :: "real list \<Rightarrow> int \<Rightarrow> nat list" where
  "top_k_indices similarities k = rev (slice_from (- k) (argsort similarities))"

text \<open>The loop over \<open>top_k_indices\<close>: copy the recipe, set its score, append it.\<close>

fun attach_scores ::
  "addr list \<Rightarrow> real list \<Rightarrow> nat list \<Rightarrow> addr list \<Rightarrow> recipe list \<Rightarrow> error + (addr list \<times> recipe list)"
  where
  "attach_scores rs similarities [] results h = Inr (results, h)"
| "attach_scores rs similarities (idx # rest) results h =
     (if idx < length rs \<and> idx < length similarities
      then let recipe = length h;
               h1 = h @ [h ! (rs ! idx)];
               h2 = h1[recipe := AList.update ''relevance_score'' (PNum (similarities ! idx))
                                   (h1 ! recipe)]
           in attach_scores rs similarities rest (results @ [recipe]) h2
      else Inl IndexError)"

definition retrieve_recipes :: "string \<Rightarrow> int \<Rightarrow> pystate \<Rightarrow> error + (addr list \<times> pystate)" where
  "retrieve_recipes query k st =
     (case query_similarities (retriever st) query of
        Inl e \<Rightarrow> Inl e
      | Inr similarities \<Rightarrow>
          (case attach_scores (recipes (retriever st)) similarities
                  (top_k_indices similarities k) [] (heap st) of
             Inl e \<Rightarrow> Inl e
           | Inr (results, h) \<Rightarrow> Inr (results, st\<lparr>heap := h\<rparr>)))"

text \<open>What \<open>__init__\<close> establishes and every method relies on.\<close>

definition initialized :: "pystate \<Rightarrow> bool" where
  "initialized st \<longleftrightarrow>
     (let slf = retriever st; vocabulary = fitted_vocabulary (vectorizer slf)
      in recipes slf \<noteq> [] \<and> length (tfidf_matrix slf) = length (recipes slf) \<and>
         vocabulary \<noteq> [] \<and> length (fitted_idf (vectorizer slf)) = length vocabulary \<and>
         list_all (\<lambda>row. length row = length vocabulary) (tfidf_matrix slf) \<and>
         list_all (\<lambda>a. a < length (heap st)) (recipes slf))"

text \<open>The dictionaries a list of references denotes, and their scores.\<close>

definition deref :: "pystate \<Rightarrow> addr list \<Rightarrow> recipe list" where
  "deref st results = map (\<lambda>a. heap st ! a) results"

definition relevance_scores :: "pystate \<Rightarrow> addr list \<Rightarrow> pyval option list" where
  "relevance_scores st results = map (\<lambda>d. map_of d ''relevance_score'') (deref st results)"

text \<open>The dictionary that the loop builds for document \<open>i\<close>.\<close>

definition scored :: "recipe list \<Rightarrow> addr list \<Rightarrow> real list \<Rightarrow> nat \<Rightarrow> recipe" where
  "scored h rs similarities i =
     AList.update ''relevance_score'' (PNum (similarities ! i)) (h ! (rs ! i))"

text \<open>
  The corpus of the examples. Its two documents share the terms \<open>chicken\<close> and
  \<open>soup\<close>, with counts \<open>(3, 4)\<close> and \<open>(4, 3)\<close>; every other term occurs in one
  document only. \<open>demo_state\<close> is the retriever that \<open>__init__\<close> builds from it.
\<close>

definition demo_corpus :: "recipe list" where
  "demo_corpus =
     [[(''recipe_id'', PNum 1), (''title'', PStr ''layered soup''),
       (''searchable_text'', PStr ''soup chicken soup chicken soup chicken soup'')],
      [(''recipe_id'', PNum 2), (''title'', PStr ''chicken and rice''),
       (''searchable_text'', PStr ''chicken chicken chicken chicken and rice soup soup soup'')]]"

definition demo_state :: pystate where
  "demo_state =
     \<lparr>heap = demo_corpus,
      retriever = \<lparr>recipes = [0, 1],
                   vectorizer = \<lparr>stop_words = [''the'', ''and''],
                                 fitted_vocabulary = [''chicken'', ''soup''],
                                 fitted_idf = [1, 1]\<rparr>,
                   tfidf_matrix = [[3 / 5, 4 / 5], [4 / 5, 3 / 5]]\<rparr>\<rparr>"

section \<open>\<open>prepare_data.py\<close>: the health category\<close>

text \<open>
  A float that is not NaN; NaN, the missing value of a numeric column, is \<open>None\<close>.
  \<open>pd.cut(x, bins, labels)\<close> with the default \<open>right=True, include_lowest=False\<close>
  looks every value up with \<open>searchsorted(side='left')\<close> and yields a missing label for
  a value that falls before the first or after the last edge.
\<close>

datatype pyfloat = NegInf | Fin real | PosInf

fun float_less :: "pyfloat \<Rightarrow> pyfloat \<Rightarrow> bool" where
  "float_less NegInf y = (y \<noteq> NegInf)"
| "float_less (Fin a) NegInf = False"
| "float_less (Fin a) (Fin b) = (a < b)"
| "float_less (Fin a) PosInf = True"
| "float_less PosInf y = False"

definition searchsorted_left :: "pyfloat list \<Rightarrow> pyfloat \<Rightarrow> nat" where
  "searchsorted_left bins x = length (takeWhile (\<lambda>b. float_less b x) bins)"

definition cut_value :: "pyfloat list \<Rightarrow> string list \<Rightarrow> pyfloat option \<Rightarrow> string option" where
  "cut_value bins labels x =
     (case x of
        None \<Rightarrow> None
      | Some v \<Rightarrow>
          let ids = searchsorted_left bins v
          in if ids = length bins \<or> ids = 0 then None else Some (labels ! (ids - 1)))"

definition cut :: "pyfloat option list \<Rightarrow> pyfloat list \<Rightarrow> string list \<Rightarrow> error + string option list" where
  "cut x bins labels =
     (if \<not> sorted_wrt (\<lambda>a b. \<not> float_less b a) bins
      then Inl (ValueError ''bins must increase monotonically.'')
      else if \<not> distinct bins then Inl (ValueError ''Bin edges must be unique'')
      else if length labels \<noteq> length bins - 1
      then Inl (ValueError ''Bin labels must be one fewer than the number of bin edges'')
      else Inr (map (cut_value bins labels) x))"

text \<open>The column \<open>health_category\<close> that \<open>preprocess_recipes\<close> derives from \<open>calories\<close>.\<close>

definition health_category :: "pyfloat option list \<Rightarrow> error + string option list" where
  "health_category calories =
     cut calories [Fin 0, Fin 200, Fin 400, Fin 600, PosInf]
       [''low_calorie'', ''moderate'', ''high_calorie'', ''very_high_calorie'']"

section \<open>\<open>evaluate_retrieval.py\<close>\<close>

fun dcg_loop :: "'a fset \<Rightarrow> 'a list \<Rightarrow> nat \<Rightarrow> real \<Rightarrow> real" where
  "dcg_loop relevant_items [] i dcg = dcg"
| "dcg_loop relevant_items (item_id # rest) i dcg =
     dcg_loop relevant_items rest (i + 1)
       (if item_id |\<in>| relevant_items then dcg + 1 / log 2 (real (i + 1)) else dcg)"

definition calculate_ndcg_at_k :: "'a fset \<Rightarrow> 'a list \<Rightarrow> int \<Rightarrow> real" where
  "calculate_ndcg_at_k relevant_items retrieved_items k =
     (let retrieved_k = slice_to k retrieved_items;
          dcg = dcg_loop relevant_items retrieved_k 1 0;
          num_relevant = min (int (fcard relevant_items)) k;
          idcg = sum_list (map (\<lambda>i. 1 / log 2 (real_of_int (i + 1))) [1..num_relevant])
      in if idcg = 0 then 0 else dcg / idcg)"

definition calculate_recall_at_k :: "'a fset \<Rightarrow> 'a list \<Rightarrow> int \<Rightarrow> error + real" where
  "calculate_recall_at_k relevant_items retrieved_items k =
     (if fcard relevant_items = 0 then Inr 0
      else let retrieved_k = fset_of_list (slice_to k retrieved_items);
               retrieved_relevant = fcard (relevant_items |\<inter>| retrieved_k)
           in truediv (real retrieved_relevant) (real (fcard relevant_items)))"

section \<open>Properties of the evaluation metrics\<close>

lemma slice_to_nonneg: "0 \<le> k \<Longrightarrow> slice_to k xs = take (nat k) xs"
  by (simp add: slice_to_def Let_def min_def)

lemma log_gt_ratio:
  fixes a b :: real
  assumes "a ^ m < b ^ n" "1 < a" "0 < b" "0 < n"
  shows "real m / real n < log a b"
proof -
  have "log a (a ^ m) < log a (b ^ n)"
    using assms by (subst log_less_cancel_iff) simp_all
  moreover have "log a (a ^ m) = real m" using assms by simp
  moreover have "log a (b ^ n) = real n * log a b" using assms by (intro log_nat_power) simp
  ultimately have "real m < real n * log a b" by simp
  then show ?thesis using assms by (simp add: field_simps)
qed

lemma log_lt_ratio:
  fixes a b :: real
  assumes "b ^ n < a ^ m" "1 < a" "0 < b" "0 < n"
  shows "log a b < real m / real n"
proof -
  have "log a (b ^ n) < log a (a ^ m)"
    using assms by (subst log_less_cancel_iff) simp_all
  moreover have "log a (a ^ m) = real m" using assms by simp
  moreover have "log a (b ^ n) = real n * log a b" using assms by (intro log_nat_power) simp
  ultimately have "real n * log a b < real m" by simp
  then show ?thesis using assms by (simp add: field_simps)
qed

lemma log2_3_lower: "84 / 53 < log 2 (3::real)"
  using log_gt_ratio [of 2 84 3 53] by simp

lemma log2_3_upper: "log 2 (3::real) < 65 / 41"
  using log_lt_ratio [of 3 41 2 65] by simp

lemma log2_4: "log 2 (4::real) = 2"
proof -
  have "log 2 ((2::real) ^ 2) = real 2 * log 2 2" by (rule log_nat_power) simp
  then show ?thesis by simp
qed

lemma ndcg_value_bounds:
  "9197 / 10000 < (3 / 2) / (1 + 1 / log 2 (3::real))"
  "(3 / 2) / (1 + 1 / log 2 (3::real)) < 9199 / 10000"
proof -
  define L where "L = log 2 (3::real)"
  have l: "84 / 53 < L" and u: "L < 65 / 41"
    unfolding L_def by (rule log2_3_lower, rule log2_3_upper)
  have pos: "0 < L" using l by simp
  have eq: "(3 / 2) / (1 + 1 / L) = 3 * L / (2 * (L + 1))" using pos by (simp add: field_simps)
  have "9197 / 10000 < 3 * L / (2 * (L + 1))" using l pos by (simp add: field_simps)
  then show "9197 / 10000 < (3 / 2) / (1 + 1 / log 2 (3::real))" using eq L_def by simp
  have "3 * L / (2 * (L + 1)) < 9199 / 10000" using u pos by (simp add: field_simps)
  then show "(3 / 2) / (1 + 1 / log 2 (3::real)) < 9199 / 10000" using eq L_def by simp
qed

lemma dcg_loop_sum:
  "dcg_loop rel xs i acc =
     acc + (\<Sum>j<length xs. (if xs ! j |\<in>| rel then 1 else 0) / log 2 (real (i + j + 1)))"
proof (induction xs arbitrary: i acc)
  case Nil
  show ?case by simp
next
  case (Cons x xs)
  let ?f = "\<lambda>j. (if (x # xs) ! j |\<in>| rel then 1 else 0) / log 2 (real (i + j + 1))"
  have "(\<Sum>j<length (x # xs). ?f j) = ?f 0 + (\<Sum>j<length xs. ?f (Suc j))"
    by (simp add: sum.lessThan_Suc_shift del: sum.lessThan_Suc)
  also have "(\<Sum>j<length xs. ?f (Suc j)) =
      (\<Sum>j<length xs. (if xs ! j |\<in>| rel then 1 else 0) / log 2 (real (i + 1 + j + 1)))"
    by (simp add: add.commute add.left_commute)
  finally show ?case
    by (simp add: Cons.IH)
qed

lemma upto_from_1: "[1..int n] = map (\<lambda>j. int j + 1) [0..<n]"
proof (induction n)
  case 0
  show ?case by simp
next
  case (Suc n)
  have "[1..int (Suc n)] = [1..int (Suc n) - 1] @ [int (Suc n)]"
    by (rule upto_rec2) simp
  then show ?case using Suc by simp
qed

lemma idcg_sum:
  "sum_list (map (\<lambda>i. 1 / log 2 (real_of_int (i + 1))) [1..int n]) =
     (\<Sum>j<n. 1 / log 2 (real (j + 2)))"
proof -
  have "sum_list (map (\<lambda>i. 1 / log 2 (real_of_int (i + 1))) [1..int n]) =
        sum_list (map (\<lambda>j. 1 / log 2 (real (j + 2))) [0..<n])"
    by (simp add: upto_from_1 comp_def add.commute)
  also have "\<dots> = (\<Sum>j<n. 1 / log 2 (real (j + 2)))"
    by (simp add: sum_list_distinct_conv_sum_set atLeast0LessThan)
  finally show ?thesis .
qed

lemma ndcg_general:
  assumes "0 \<le> k"
  shows "calculate_ndcg_at_k relevant_items retrieved_items k =
      (let retrieved_k = take (nat k) retrieved_items;
           dcg = (\<Sum>j<length retrieved_k.
                    (if retrieved_k ! j |\<in>| relevant_items then 1 else 0) / log 2 (real (j + 2)));
           idcg = (\<Sum>j<min (fcard relevant_items) (nat k). 1 / log 2 (real (j + 2)))
       in if idcg = 0 then 0 else dcg / idcg)"
proof -
  have m: "min (int (fcard relevant_items)) k = int (min (fcard relevant_items) (nat k))"
    using assms by (auto simp: min_def)
  show ?thesis
    unfolding calculate_ndcg_at_k_def slice_to_nonneg [OF assms] m idcg_sum dcg_loop_sum Let_def
    by (simp add: add.commute)
qed

lemma upto_1_2: "[1..2::int] = [1, 2]"
  by (simp add: upto.simps)

lemma ndcg_example:
  "calculate_ndcg_at_k {|5, 9|} [9, 1, 5::int] 3 = (3 / 2) / (1 + 1 / log 2 3)"
proof -
  have L: "0 < log 2 (3::real)" using log2_3_lower by simp
  then have "0 < 1 + 1 / log 2 (3::real)" by (simp add: add_pos_pos)
  then have nz: "1 + 1 / log 2 (3::real) \<noteq> 0" by simp
  have nz': "1 + inverse (log 2 (3::real)) \<noteq> 0" using nz by (simp add: field_simps)
  show ?thesis using nz nz'
    by (simp add: calculate_ndcg_at_k_def slice_to_def fcard_finsert_if fcard_fempty log2_4 upto_1_2)
qed

text \<open>
  Claim C8. NDCG@k uses binary relevance and the discount \<open>1 / log\<^sub>2 (rank + 1)\<close>, and
  the ideal DCG sums the discounts of the first \<open>min(|relevant|, k)\<close> ranks. For the
  relevant set \<open>{5, 9}\<close>, the retrieved list \<open>[9, 1, 5]\<close> and \<open>k = 3\<close> the DCG is
  \<open>3/2\<close>, the ideal DCG is \<open>1 + 1 / log\<^sub>2 3\<close>, and NDCG is their quotient, which
  lies within \<open>0.001\<close> of \<open>0.919\<close>.
\<close>

theorem ndcg_binary_log2:
  "(0 \<le> k \<longrightarrow>
      calculate_ndcg_at_k relevant_items retrieved_items k =
        (let retrieved_k = take (nat k) retrieved_items;
             dcg = (\<Sum>j<length retrieved_k.
                      (if retrieved_k ! j |\<in>| relevant_items then 1 else 0) / log 2 (real (j + 2)));
             idcg = (\<Sum>j<min (fcard relevant_items) (nat k). 1 / log 2 (real (j + 2)))
         in if idcg = 0 then 0 else dcg / idcg)) \<and>
   dcg_loop {|5, 9|} (slice_to 3 [9, 1, 5::int]) 1 0 = 3 / 2 \<and>
   sum_list (map (\<lambda>i. 1 / log 2 (real_of_int (i + 1))) [1..min (int (fcard {|5, 9::int|})) 3]) =
     1 + 1 / log 2 3 \<and>
   calculate_ndcg_at_k {|5, 9|} [9, 1, 5::int] 3 = (3 / 2) / (1 + 1 / log 2 3) \<and>
   \<bar>calculate_ndcg_at_k {|5, 9|} [9, 1, 5::int] 3 - 919 / 1000\<bar> < 1 / 1000"
proof (intro conjI impI)
  assume "0 \<le> k"
  then show "calculate_ndcg_at_k relevant_items retrieved_items k =
        (let retrieved_k = take (nat k) retrieved_items;
             dcg = (\<Sum>j<length retrieved_k.
                      (if retrieved_k ! j |\<in>| relevant_items then 1 else 0) / log 2 (real (j + 2)));
             idcg = (\<Sum>j<min (fcard relevant_items) (nat k). 1 / log 2 (real (j + 2)))
         in if idcg = 0 then 0 else dcg / idcg)"
    by (rule ndcg_general)
next
  show "dcg_loop {|5, 9|} (slice_to 3 [9, 1, 5::int]) 1 0 = 3 / 2"
    by (simp add: slice_to_def log2_4)
next
  show "sum_list (map (\<lambda>i. 1 / log 2 (real_of_int (i + 1))) [1..min (int (fcard {|5, 9::int|})) 3]) =
     1 + 1 / log 2 3"
    by (simp add: fcard_finsert_if fcard_fempty upto_1_2)
next
  show "calculate_ndcg_at_k {|5, 9|} [9, 1, 5::int] 3 = (3 / 2) / (1 + 1 / log 2 3)"
    by (rule ndcg_example)
next
  show "\<bar>calculate_ndcg_at_k {|5, 9|} [9, 1, 5::int] 3 - 919 / 1000\<bar> < 1 / 1000"
    unfolding ndcg_example using ndcg_value_bounds by (simp add: abs_less_iff)
qed

theorem ndcg_binary_log2_witness:
  "(0::int) \<le> 2 \<and>
   calculate_ndcg_at_k {|7::int|} [3, 7] 2 = (1 / log 2 3) / (1 / log 2 2)"
  using ndcg_binary_log2 [of 2 "{|7::int|}" "[3, 7]"]
  by (simp add: Let_def fcard_finsert_if fcard_fempty lessThan_Suc eval_nat_numeral)

text \<open>
  Claim C10. \<open>calculate_recall_at_k\<close> never raises: on an empty relevant set it returns
  \<open>0\<close> without dividing, and otherwise the number of relevant items among
  \<open>retrieved_items[:k]\<close> (the first \<open>k\<close> retrieved items for \<open>k \<ge> 0\<close>) divided by
  the number of relevant items.
\<close>

theorem recall_total:
  "calculate_recall_at_k relevant_items retrieved_items k =
     Inr (if relevant_items = {||} then 0
          else real (fcard (relevant_items |\<inter>| fset_of_list (slice_to k retrieved_items))) /
               real (fcard relevant_items)) \<and>
   (0 \<le> k \<longrightarrow> slice_to k retrieved_items = take (nat k) retrieved_items)"
  by (simp add: calculate_recall_at_k_def truediv_def slice_to_nonneg)

theorem recall_total_witness:
  "calculate_recall_at_k {|5::int, 9|} [9, 1, 5] 2 = Inr (1 / 2) \<and>
   calculate_recall_at_k {||} [9, 1, 5::int] 2 = Inr 0"
  using recall_total [of "{|5::int, 9|}" "[9, 1, 5]" 2] recall_total [of "{||}" "[9, 1, 5::int]" 2]
  by (simp add: fcard_finsert_if)

section \<open>Properties of the health category\<close>

lemma cut_value_health:
  "cut_value [Fin 0, Fin 200, Fin 400, Fin 600, PosInf]
       [''low_calorie'', ''moderate'', ''high_calorie'', ''very_high_calorie''] x =
     (case x of
        None \<Rightarrow> None
      | Some NegInf \<Rightarrow> None
      | Some PosInf \<Rightarrow> Some ''very_high_calorie''
      | Some (Fin c) \<Rightarrow>
          if c \<le> 0 then None
          else if c \<le> 200 then Some ''low_calorie''
          else if c \<le> 400 then Some ''moderate''
          else if c \<le> 600 then Some ''high_calorie''
          else Some ''very_high_calorie'')"
  by (simp add: cut_value_def searchsorted_left_def split: option.split pyfloat.split)

text \<open>
  Claim C7, as amended. The buckets are closed on the right: the category is
  \<open>low_calorie\<close> on \<open>(0, 200]\<close>, \<open>moderate\<close> on \<open>(200, 400]\<close>, \<open>high_calorie\<close> on
  \<open>(400, 600]\<close> and \<open>very_high_calorie\<close> above \<open>600\<close>; it is missing when the calories
  are missing and when they are zero or negative.
\<close>

theorem health_category_buckets:
  "health_category calories =
     Inr (map (\<lambda>x. case x of
                   None \<Rightarrow> None
                 | Some NegInf \<Rightarrow> None
                 | Some PosInf \<Rightarrow> Some ''very_high_calorie''
                 | Some (Fin c) \<Rightarrow>
                     if c \<le> 0 then None
                     else if c \<le> 200 then Some ''low_calorie''
                     else if c \<le> 400 then Some ''moderate''
                     else if c \<le> 600 then Some ''high_calorie''
                     else Some ''very_high_calorie'') calories)"
  using cut_value_health by (simp add: health_category_def cut_def)

theorem health_category_buckets_witness:
  "health_category
     [Some (Fin 150), Some (Fin 200), Some (Fin 450), Some (Fin 700), Some (Fin 0), None] =
     Inr [Some ''low_calorie'', Some ''low_calorie'', Some ''high_calorie'',
          Some ''very_high_calorie'', None, None]"
  using health_category_buckets
    [of "[Some (Fin 150), Some (Fin 200), Some (Fin 450), Some (Fin 700), Some (Fin 0), None]"]
  by simp

text \<open>
  Claim C7 as stated fails on the boundaries: \<open>200\<close> calories are \<open>low_calorie\<close>, not
  \<open>moderate\<close>, and \<open>0\<close> calories have no category.
\<close>

theorem health_category_boundary_counterexample:
  "health_category [Some (Fin 200), Some (Fin 0)] = Inr [Some ''low_calorie'', None] \<and>
   health_category [Some (Fin 200), Some (Fin 0)] \<noteq> Inr [Some ''moderate'', Some ''low_calorie'']"
  by (simp add: health_category_def cut_def cut_value_def searchsorted_left_def)

section \<open>Properties of the retriever\<close>

subsection \<open>argsort\<close>

lemma length_argsort: "length (argsort a) = length a"
  by (simp add: argsort_def)

lemma set_argsort: "set (argsort a) = {..<length a}"
  by (auto simp: argsort_def)

lemma distinct_argsort: "distinct (argsort a)"
  by (simp add: argsort_def)

lemma sorted_argsort: "sorted (map (\<lambda>i. a ! i) (argsort a))"
  by (simp add: argsort_def)

subsection \<open>Slices\<close>

lemma slice_from_neg: "0 < k \<Longrightarrow> slice_from (- k) xs = drop (length xs - nat k) xs"
  by (auto simp: slice_from_def Let_def max_def nat_diff_distrib' intro: arg_cong[where f="\<lambda>n. drop n xs"])

lemma slice_from_zero: "slice_from 0 xs = xs"
  by (simp add: slice_from_def)

lemma slice_from_pos: "k < 0 \<Longrightarrow> slice_from (- k) xs = drop (nat (- k)) xs"
  by (auto simp: slice_from_def Let_def min_def)

lemma slice_from_drop: "\<exists>n. slice_from s xs = drop n xs"
  by (auto simp: slice_from_def Let_def)

lemma length_slice_from:
  "length (slice_from (- k) xs) =
     (if 0 < k then min (nat k) (length xs)
      else if k = 0 then length xs else length xs - nat (- k))"
  by (auto simp: slice_from_neg slice_from_zero slice_from_pos)

subsection \<open>The ranking\<close>

lemma top_k_indices_drop: "\<exists>n. top_k_indices sims k = rev (drop n (argsort sims))"
  using slice_from_drop [of "- k" "argsort sims"] by (auto simp: top_k_indices_def)

lemma length_top_k_indices:
  "length (top_k_indices sims k) =
     (if 0 < k then min (nat k) (length sims)
      else if k = 0 then length sims else length sims - nat (- k))"
  by (simp add: top_k_indices_def length_slice_from length_argsort)

lemma set_top_k_indices: "set (top_k_indices sims k) \<subseteq> {..<length sims}"
proof -
  obtain n where "top_k_indices sims k = rev (drop n (argsort sims))"
    using top_k_indices_drop by blast
  then have "set (top_k_indices sims k) \<subseteq> set (argsort sims)"
    by (simp add: set_drop_subset)
  then show ?thesis by (simp add: set_argsort)
qed

lemma distinct_top_k_indices: "distinct (top_k_indices sims k)"
proof -
  obtain n where "top_k_indices sims k = rev (drop n (argsort sims))"
    using top_k_indices_drop by blast
  then show ?thesis by (simp add: distinct_argsort)
qed

lemma argsort_sorted_wrt: "sorted_wrt (\<lambda>i j. sims ! i \<le> sims ! j) (argsort sims)"
  using sorted_argsort [of sims] by (simp add: sorted_wrt_map)

lemma top_k_indices_descending:
  "sorted_wrt (\<lambda>i j. sims ! j \<le> sims ! i) (top_k_indices sims k)"
proof -
  obtain n where n: "top_k_indices sims k = rev (drop n (argsort sims))"
    using top_k_indices_drop by blast
  have "sorted_wrt (\<lambda>i j. sims ! i \<le> sims ! j) (drop n (argsort sims))"
    by (rule sorted_wrt_drop) (rule argsort_sorted_wrt)
  then show ?thesis by (simp add: n sorted_wrt_rev)
qed

lemma top_k_indices_dominate:
  assumes "j < length sims" "j \<notin> set (top_k_indices sims k)" "i \<in> set (top_k_indices sims k)"
  shows "sims ! j \<le> sims ! i"
proof -
  obtain n where n: "top_k_indices sims k = rev (drop n (argsort sims))"
    using top_k_indices_drop by blast
  have "j \<in> set (argsort sims)" using assms(1) by (simp add: set_argsort)
  moreover have "set (argsort sims) = set (take n (argsort sims)) \<union> set (drop n (argsort sims))"
    by (metis append_take_drop_id set_append)
  ultimately have j: "j \<in> set (take n (argsort sims))" using assms(2) n by auto
  have i: "i \<in> set (drop n (argsort sims))" using assms(3) n by simp
  have "sorted_wrt (\<lambda>i j. sims ! i \<le> sims ! j) (take n (argsort sims) @ drop n (argsort sims))"
    using argsort_sorted_wrt by simp
  then show ?thesis using i j unfolding sorted_wrt_append by blast
qed

subsection \<open>The similarities\<close>

lemma length_normalize: "length (normalize row) = length row"
  by (simp add: normalize_def Let_def)

lemma transform_single:
  "transform v [doc] =
     [normalize (map (\<lambda>(c, w). real c * w)
        (zip (count_features (fitted_vocabulary v) (analyze (stop_words v) doc)) (fitted_idf v)))]"
  by (simp add: transform_def tfidf_transform_def)

lemma query_similarities_ok:
  assumes "initialized st"
  shows "\<exists>sims. query_similarities (retriever st) query = Inr sims \<and>
               length sims = length (recipes (retriever st))"
proof -
  let ?r = "retriever st"
  let ?v = "vectorizer ?r"
  have m: "tfidf_matrix ?r \<noteq> []" "length (tfidf_matrix ?r) = length (recipes ?r)"
    and voc: "fitted_vocabulary ?v \<noteq> []" "length (fitted_idf ?v) = length (fitted_vocabulary ?v)"
    and rows: "list_all (\<lambda>row. length row = length (fitted_vocabulary ?v)) (tfidf_matrix ?r)"
    using assms by (auto simp: initialized_def Let_def)
  have hdrow: "length (hd (tfidf_matrix ?r)) = length (fitted_vocabulary ?v)"
    using m(1) rows by (cases "tfidf_matrix ?r") simp_all
  have qlen: "length (hd (transform ?v [lower query])) = length (fitted_vocabulary ?v)"
    by (simp add: transform_single length_normalize count_features_def voc)
  have "cosine_similarity (transform ?v [lower query]) (tfidf_matrix ?r) =
      Inr (map (\<lambda>x. map (\<lambda>y. dot (normalize x) (normalize y)) (tfidf_matrix ?r))
             (transform ?v [lower query]))"
    using m(1) voc(1) hdrow qlen
    by (auto simp: cosine_similarity_def transform_single)
  then show ?thesis
    by (simp add: query_similarities_def transform_single m)
qed

subsection \<open>The result loop\<close>

lemma upt_add_Suc: "[a..<a + Suc n] = a # [Suc a..<Suc a + n]"
proof -
  have "a < a + Suc n" by simp
  then have "[a..<a + Suc n] = a # [Suc a..<a + Suc n]" by (rule upt_conv_Cons)
  then show ?thesis by (simp only: add_Suc_right add_Suc)
qed

lemma attach_scores_result:
  assumes "\<forall>i\<in>set idxs. i < length rs \<and> i < length sims \<and> rs ! i < length h0"
    and "length h0 \<le> length h" "take (length h0) h = h0"
  shows "attach_scores rs sims idxs results h =
           Inr (results @ [length h..<length h + length idxs],
                h @ map (scored h0 rs sims) idxs)"
  using assms
proof (induction idxs arbitrary: results h)
  case Nil
  show ?case by simp
next
  case (Cons i idxs)
  have i: "i < length rs" "i < length sims" "rs ! i < length h0" using Cons.prems(1) by auto
  have hi: "h ! (rs ! i) = h0 ! (rs ! i)"
    using i(3) Cons.prems(2,3) by (metis nth_take)
  let ?h2 = "h @ [scored h0 rs sims i]"
  have step: "attach_scores rs sims (i # idxs) results h =
              attach_scores rs sims idxs (results @ [length h]) ?h2"
    using i by (simp add: Let_def scored_def hi)
  have "attach_scores rs sims idxs (results @ [length h]) ?h2 =
          Inr ((results @ [length h]) @ [length ?h2..<length ?h2 + length idxs],
               ?h2 @ map (scored h0 rs sims) idxs)"
    using Cons.prems by (intro Cons.IH) auto
  moreover have "[length h..<length h + length (i # idxs)] =
      length h # [length ?h2..<length ?h2 + length idxs]"
    using upt_add_Suc [of "length h" "length idxs"] by simp
  ultimately show ?case
    unfolding step by simp
qed

lemma deref_appended:
  "deref (st\<lparr>heap := h @ xs\<rparr>) [length h..<length h + length xs] = xs"
  by (rule nth_equalityI) (simp_all add: deref_def nth_append)

lemma deref_old:
  "\<forall>a\<in>set as. a < length h \<Longrightarrow> deref (st\<lparr>heap := h @ xs\<rparr>) as = map (\<lambda>a. h ! a) as"
  by (simp add: deref_def nth_append)

lemma score_of_scored: "map_of (scored h rs sims i) ''relevance_score'' = Some (PNum (sims ! i))"
  by (simp add: scored_def update_conv')

lemma retrieve_recipes_result:
  assumes "initialized st" "query_similarities (retriever st) query = Inr sims"
  shows "retrieve_recipes query k st =
     Inr ([length (heap st)..<length (heap st) + length (top_k_indices sims k)],
          st\<lparr>heap := heap st @
                 map (scored (heap st) (recipes (retriever st)) sims) (top_k_indices sims k)\<rparr>)"
proof -
  have len: "length sims = length (recipes (retriever st))"
    using query_similarities_ok [OF assms(1), of query] assms(2) by auto
  have refs: "\<forall>a\<in>set (recipes (retriever st)). a < length (heap st)"
    using assms(1) by (simp add: initialized_def Let_def list_all_iff)
  have "\<forall>i\<in>set (top_k_indices sims k).
          i < length (recipes (retriever st)) \<and> i < length sims \<and>
          recipes (retriever st) ! i < length (heap st)"
    using set_top_k_indices [of sims k] len refs by auto
  then have "attach_scores (recipes (retriever st)) sims (top_k_indices sims k) [] (heap st) =
      Inr ([] @ [length (heap st)..<length (heap st) + length (top_k_indices sims k)],
           heap st @ map (scored (heap st) (recipes (retriever st)) sims) (top_k_indices sims k))"
    by (intro attach_scores_result) simp_all
  then show ?thesis by (simp add: retrieve_recipes_def assms(2))
qed

lemma retrieve_recipes_values:
  assumes "initialized st" "query_similarities (retriever st) query = Inr sims"
  shows "\<exists>results st'. retrieve_recipes query k st = Inr (results, st') \<and>
           deref st' results =
             map (scored (heap st) (recipes (retriever st)) sims) (top_k_indices sims k) \<and>
           relevance_scores st' results =
             map (\<lambda>i. Some (PNum (sims ! i))) (top_k_indices sims k)"
proof -
  let ?xs = "map (scored (heap st) (recipes (retriever st)) sims) (top_k_indices sims k)"
  have d: "deref (st\<lparr>heap := heap st @ ?xs\<rparr>)
             [length (heap st)..<length (heap st) + length (top_k_indices sims k)] = ?xs"
    using deref_appended [where st = st and h = "heap st" and xs = ?xs] by simp
  show ?thesis
    unfolding retrieve_recipes_result [OF assms] relevance_scores_def
    by (simp add: d score_of_scored comp_def)
qed

lemma sqrt_25: "sqrt 25 = 5"
  by (rule real_sqrt_unique) simp_all

lemma demo_initialized: "initialized demo_state"
  by (simp add: initialized_def demo_state_def demo_corpus_def)

lemma demo_init: "RecipeRetriever_init [''the'', ''and''] demo_corpus = Inr demo_state"
  by (simp add: RecipeRetriever_init_def build_index_def demo_corpus_def demo_state_def dict_get_def
      fit_transform_def count_vocab_def analyze_def word_ngrams_def tokenize_def
      is_word_char_def lower_def lower_char_def sort_features_def limit_features_def
      select_columns_def column_of_def document_frequency_def count_features_def
      max_features_def min_df_def max_df_def tfidf_transform_def normalize_def
      less_eq_char_def less_char_def Let_def numeral_2_eq_2 sqrt_25)

lemma demo_similarities_chicken:
  "query_similarities (retriever demo_state) ''Chicken'' = Inr [3 / 5, 4 / 5]"
  by (simp add: query_similarities_def demo_state_def transform_def tfidf_transform_def
      cosine_similarity_def count_features_def analyze_def word_ngrams_def tokenize_def
      is_word_char_def lower_def lower_char_def normalize_def dot_def)

lemma demo_similarities_tofu:
  "query_similarities (retriever demo_state) ''tofu'' = Inr [0, 0]"
  by (simp add: query_similarities_def demo_state_def transform_def tfidf_transform_def
      cosine_similarity_def count_features_def analyze_def word_ngrams_def tokenize_def
      is_word_char_def lower_def lower_char_def normalize_def dot_def)

lemma argsort_pair: "argsort [a, b] = (if b < a then [1, 0] else [0, 1])"
  by (auto simp: argsort_def numeral_2_eq_2)

lemma demo_top_k:
  "top_k_indices [3 / 5, 4 / 5] 1 = [1]" "top_k_indices [3 / 5, 4 / 5] 2 = [1, 0]"
  "top_k_indices [3 / 5, 4 / 5] 0 = [1, 0]" "top_k_indices [0, 0] 2 = [1, 0]"
  by (simp_all add: top_k_indices_def slice_from_def argsort_pair)

lemma initialized_grow:
  assumes "initialized st"
  shows "initialized (st\<lparr>heap := heap st @ xs\<rparr>)"
  using assms by (auto simp: initialized_def Let_def list_all_iff)

lemma scored_grow:
  assumes "rs ! i < length h"
  shows "scored (h @ xs) rs sims i = scored h rs sims i"
  using assms by (simp add: scored_def nth_append)

lemma demo_heap: "heap demo_state = demo_corpus"
  by (simp add: demo_state_def)

lemma demo_recipes: "recipes (retriever demo_state) = [0, 1]"
  by (simp add: demo_state_def)

lemma demo_size: "length (recipes (retriever demo_state)) = 2"
  by (simp add: demo_state_def)

lemma count_features_absent:
  assumes "\<forall>t\<in>set features. t \<notin> set vocabulary"
  shows "count_features vocabulary features = replicate (length vocabulary) 0"
proof -
  have "\<forall>t\<in>set vocabulary. count_list features t = 0"
    using assms by (auto simp: count_list_0_iff)
  then show ?thesis
    unfolding count_features_def by (intro replicate_eqI) auto
qed

lemma weigh_zero:
  "length idf = n \<Longrightarrow> map (\<lambda>(c, w). real c * w) (zip (replicate n 0) idf) = replicate n 0"
  by (intro replicate_eqI) (auto simp: set_zip)

lemma normalize_zero: "normalize (replicate n 0) = replicate n 0"
  by (simp add: normalize_def Let_def)

lemma sum_list_zero: "\<forall>x\<in>set xs. x = (0::real) \<Longrightarrow> sum_list xs = 0"
  by (induction xs) simp_all

lemma dot_zero: "dot (replicate n 0) y = 0"
  unfolding dot_def by (rule sum_list_zero) (auto simp: set_zip)

lemma transform_absent:
  assumes "length (fitted_idf v) = length (fitted_vocabulary v)"
    and "\<forall>t\<in>set (analyze (stop_words v) doc). t \<notin> set (fitted_vocabulary v)"
  shows "transform v [doc] = [replicate (length (fitted_vocabulary v)) 0]"
  by (simp add: transform_single count_features_absent [OF assms(2)] weigh_zero assms(1)
      normalize_zero)

lemma query_similarities_absent:
  assumes "initialized st"
    and "\<forall>t\<in>set (analyze (stop_words (vectorizer (retriever st))) (lower query)).
           t \<notin> set (fitted_vocabulary (vectorizer (retriever st)))"
  shows "query_similarities (retriever st) query =
           Inr (replicate (length (recipes (retriever st))) 0)"
proof -
  let ?r = "retriever st"
  let ?v = "vectorizer ?r"
  let ?n = "length (fitted_vocabulary ?v)"
  have m: "tfidf_matrix ?r \<noteq> []" "length (tfidf_matrix ?r) = length (recipes ?r)"
    and voc: "fitted_vocabulary ?v \<noteq> []" "length (fitted_idf ?v) = ?n"
    and rows: "list_all (\<lambda>row. length row = ?n) (tfidf_matrix ?r)"
    using assms(1) by (auto simp: initialized_def Let_def)
  have q: "transform ?v [lower query] = [replicate ?n 0]"
    using transform_absent [OF voc(2) assms(2)] .
  have hdrow: "length (hd (tfidf_matrix ?r)) = ?n"
    using m(1) rows by (cases "tfidf_matrix ?r") simp_all
  have "cosine_similarity [replicate ?n 0] (tfidf_matrix ?r) =
      Inr [map (\<lambda>y. dot (normalize (replicate ?n 0)) (normalize y)) (tfidf_matrix ?r)]"
    using m(1) voc(1) hdrow by (auto simp: cosine_similarity_def)
  then have "query_similarities ?r query =
      Inr (map (\<lambda>y. 0) (tfidf_matrix ?r))"
    by (simp add: query_similarities_def q normalize_zero dot_zero)
  then show ?thesis by (simp add: map_replicate_const m(2))
qed

lemma demo_tofu_absent:
  "\<forall>t\<in>set (analyze (stop_words (vectorizer (retriever demo_state))) (lower ''Tofu and rice'')).
     t \<notin> set (fitted_vocabulary (vectorizer (retriever demo_state)))"
  by (simp add: demo_state_def analyze_def word_ngrams_def tokenize_def is_word_char_def
      lower_def lower_char_def)

lemma as_documents_length: "as_documents vals = Inr docs \<Longrightarrow> length docs = length vals"
proof (induction vals arbitrary: docs)
  case Nil
  then show ?case by simp
next
  case (Cons v vals)
  then show ?case by (cases v) (auto split: sum.splits)
qed

lemma as_documents_strings:
  assumes "\<forall>v\<in>set vals. \<exists>s. v = PStr s \<and> P s"
  shows "\<exists>docs. as_documents vals = Inr docs \<and> (\<forall>s\<in>set docs. P s)"
  using assms
proof (induction vals)
  case Nil
  show ?case by simp
next
  case (Cons v vals)
  then obtain s where v: "v = PStr s" "P s" by auto
  obtain docs where "as_documents vals = Inr docs" "\<forall>s\<in>set docs. P s"
    using Cons by auto
  then show ?case using v by simp
qed

lemma count_vocab_empty:
  assumes "\<forall>s\<in>set docs. analyze stop s = []"
  shows "count_vocab stop docs =
           Inl (ValueError ''empty vocabulary; perhaps the documents only contain stop words'')"
proof -
  have "concat (map (analyze stop) docs) = []" using assms by simp
  then show ?thesis by (simp add: count_vocab_def)
qed

lemma documents_of_loaded:
  "map (\<lambda>a. dict_get (loaded ! a) key dflt) [0..<length loaded] =
     map (\<lambda>d. dict_get d key dflt) loaded"
  by (rule nth_equalityI) simp_all

lemma select_columns_shape:
  "length (select_columns cols X) = length X"
  "list_all (\<lambda>row. length row = length cols) (select_columns cols X)"
  by (simp_all add: select_columns_def list_all_iff)

lemma tfidf_transform_shape:
  assumes "list_all (\<lambda>row. length row = n) X" "length idf = n"
  shows "length (tfidf_transform idf X) = length X"
    and "list_all (\<lambda>row. length row = n) (tfidf_transform idf X)"
  using assms by (auto simp: tfidf_transform_def list_all_iff length_normalize)

lemma fit_transform_shape:
  assumes "fit_transform stop raw = Inr (v, m)"
  shows "2 \<le> length raw \<and> length m = length raw \<and> fitted_vocabulary v \<noteq> [] \<and>
         length (fitted_idf v) = length (fitted_vocabulary v) \<and>
         list_all (\<lambda>row. length row = length (fitted_vocabulary v)) m"
proof -
  obtain docs where d: "as_documents raw = Inr docs"
    using assms by (auto simp: fit_transform_def split: sum.splits)
  obtain voc0 X0 where c: "count_vocab stop docs = Inr (voc0, X0)"
    using assms d by (auto simp: fit_transform_def split: sum.splits)
  have X0: "length X0 = length docs"
    using c by (auto simp: count_vocab_def Let_def split: if_splits)
  have n: "\<not> max_df * real (length X0) < real min_df"
    using assms d c by (auto simp: fit_transform_def Let_def split: if_splits)
  obtain voc1 X1 where s: "sort_features X0 voc0 = (voc1, X1)"
    by (cases "sort_features X0 voc0")
  have X1: "length X1 = length X0"
    using s by (auto simp: sort_features_def Let_def select_columns_shape)
  obtain voc2 X2 where l: "limit_features X1 voc1 (max_df * real (length X0)) (real min_df)
      max_features = Inr (voc2, X2)"
    using assms d c n s by (auto simp: fit_transform_def Let_def split: sum.splits)
  obtain kept where k: "kept \<noteq> []" "voc2 = map (\<lambda>j. voc1 ! j) kept"
    "X2 = select_columns kept X1"
    using l by (auto simp: limit_features_def Let_def split: if_splits)
  have X2: "length X2 = length X1" "list_all (\<lambda>row. length row = length voc2) X2"
    using k select_columns_shape [of kept X1] by simp_all
  let ?idf = "map (\<lambda>j. ln ((1 + real (length X0)) / (1 + real (document_frequency X2 j))) + 1)
                [0..<length voc2]"
  have res: "v = \<lparr>stop_words = stop, fitted_vocabulary = voc2, fitted_idf = ?idf\<rparr>"
    "m = tfidf_transform ?idf X2"
    using assms d c n s l by (auto simp: fit_transform_def Let_def)
  have "2 \<le> length raw"
    using n X0 as_documents_length [OF d] by (simp add: max_df_def min_df_def)
  moreover have "length m = length raw"
    using res(2) tfidf_transform_shape(1) [OF X2(2), of ?idf] X2(1) X1 X0
      as_documents_length [OF d] by simp
  moreover have "list_all (\<lambda>row. length row = length (fitted_vocabulary v)) m"
    using res tfidf_transform_shape(2) [OF X2(2), of ?idf] by simp
  ultimately show ?thesis using res(1) k by simp
qed

lemma init_initialized:
  assumes "RecipeRetriever_init english loaded = Inr st"
  shows "initialized st \<and> heap st = loaded \<and> recipes (retriever st) = [0..<length loaded]"
proof -
  obtain v m where b: "build_index english loaded [0..<length loaded] = Inr (v, m)"
    and st: "st = \<lparr>heap = loaded,
                    retriever = \<lparr>recipes = [0..<length loaded], vectorizer = v, tfidf_matrix = m\<rparr>\<rparr>"
    using assms by (auto simp: RecipeRetriever_init_def Let_def split: sum.splits)
  have "fit_transform english
      (map (\<lambda>a. dict_get (loaded ! a) ''searchable_text'' (PStr [])) [0..<length loaded]) = Inr (v, m)"
    using b by (simp add: build_index_def)
  from fit_transform_shape [OF this] show ?thesis
    by (auto simp: st initialized_def Let_def list_all_iff)
qed

subsection \<open>The claims on \<open>retrieve_recipes\<close> and \<open>__init__\<close>\<close>

text \<open>
  Claim C1. On an initialized retriever \<open>retrieve_recipes\<close> always returns, and the
  number of results is \<open>min(k, corpus_size)\<close> for \<open>k > 0\<close>. For \<open>k = 0\<close> the slice
  \<open>[-0:]\<close> is the whole array and every document is returned; for \<open>k < 0\<close> the slice
  drops the \<open>-k\<close> lowest-ranked documents. The claimed empty result for \<open>k \<le> 0\<close>
  does not hold: the example returns two recipes for \<open>k = 0\<close>.
\<close>

theorem retrieve_recipes_length:
  assumes "initialized st"
  shows "\<exists>results st'. retrieve_recipes query k st = Inr (results, st') \<and>
           length results =
             (if 0 < k then min (nat k) (length (recipes (retriever st)))
              else if k = 0 then length (recipes (retriever st))
              else length (recipes (retriever st)) - nat (- k))"
proof -
  obtain sims where s: "query_similarities (retriever st) query = Inr sims"
    and l: "length sims = length (recipes (retriever st))"
    using query_similarities_ok [OF assms] by blast
  show ?thesis
    unfolding retrieve_recipes_result [OF assms s]
    by (simp add: length_top_k_indices l)
qed

theorem retrieve_recipes_length_witness:
  "initialized demo_state \<and>
   (\<exists>results st'. retrieve_recipes ''Chicken'' 0 demo_state = Inr (results, st') \<and>
      length results = 2) \<and>
   (\<exists>results st'. retrieve_recipes ''Chicken'' 1 demo_state = Inr (results, st') \<and>
      length results = 1) \<and>
   (\<exists>results st'. retrieve_recipes ''Chicken'' 5 demo_state = Inr (results, st') \<and>
      length results = 2) \<and>
   (\<exists>results st'. retrieve_recipes ''Chicken'' (- 1) demo_state = Inr (results, st') \<and>
      length results = 1)"
  using retrieve_recipes_length [OF demo_initialized, of "''Chicken''" 0]
    retrieve_recipes_length [OF demo_initialized, of "''Chicken''" 1]
    retrieve_recipes_length [OF demo_initialized, of "''Chicken''" 5]
    retrieve_recipes_length [OF demo_initialized, of "''Chicken''" "- 1"]
    demo_initialized
  by (simp add: demo_size)

text \<open>
  Claim C2, as amended. The results are the documents that \<open>argsort\<close> lists last, in
  the reverse of the order in which it lists them, each at most once; their scores
  are in descending order. The code applies no tie-break of its own: documents with
  exactly equal scores come in the reverse of their order in the \<open>argsort\<close> list,
  whatever their order in the document store.
\<close>

theorem ranking_descending_no_tie_break:
  assumes "initialized st"
  shows "\<exists>sims results st'.
           query_similarities (retriever st) query = Inr sims \<and>
           retrieve_recipes query k st = Inr (results, st') \<and>
           (let listed = slice_from (- k) (argsort sims)
            in deref st' results =
                 map (scored (heap st) (recipes (retriever st)) sims) (rev listed) \<and>
               relevance_scores st' results = map (\<lambda>i. Some (PNum (sims ! i))) (rev listed) \<and>
               sorted_wrt (\<lambda>a b. b \<le> a) (map (\<lambda>i. sims ! i) (rev listed)) \<and>
               distinct listed \<and> list_all (\<lambda>i. i < length sims) listed)"
proof -
  obtain sims where s: "query_similarities (retriever st) query = Inr sims"
    using query_similarities_ok [OF assms] by blast
  let ?listed = "slice_from (- k) (argsort sims)"
  have idxs: "top_k_indices sims k = rev ?listed" by (simp add: top_k_indices_def)
  obtain results st' where r: "retrieve_recipes query k st = Inr (results, st')"
    and d: "deref st' results =
        map (scored (heap st) (recipes (retriever st)) sims) (top_k_indices sims k)"
    and v: "relevance_scores st' results =
        map (\<lambda>i. Some (PNum (sims ! i))) (top_k_indices sims k)"
    using retrieve_recipes_values [OF assms s] by blast
  have "sorted_wrt (\<lambda>a b. b \<le> a) (map (\<lambda>i. sims ! i) (rev ?listed))"
    using top_k_indices_descending [of sims k] unfolding idxs by (simp add: sorted_wrt_map)
  moreover have "distinct ?listed"
    using distinct_top_k_indices [of sims k] unfolding idxs by simp
  moreover have "list_all (\<lambda>i. i < length sims) ?listed"
    using set_top_k_indices [of sims k] unfolding idxs by (auto simp: list_all_iff)
  ultimately show ?thesis
    using s r d v unfolding idxs Let_def by blast
qed

theorem ranking_descending_no_tie_break_witness:
  "initialized demo_state \<and>
   (\<exists>results st'.
      retrieve_recipes ''Chicken'' 2 demo_state = Inr (results, st') \<and>
      deref st' results =
        [[(''recipe_id'', PNum 2), (''title'', PStr ''chicken and rice''),
          (''searchable_text'', PStr ''chicken chicken chicken chicken and rice soup soup soup''),
          (''relevance_score'', PNum (4 / 5))],
         [(''recipe_id'', PNum 1), (''title'', PStr ''layered soup''),
          (''searchable_text'', PStr ''soup chicken soup chicken soup chicken soup''),
          (''relevance_score'', PNum (3 / 5))]])"
proof -
  have listed: "rev (slice_from (- 2) (argsort [3 / 5, 4 / 5 :: real])) = [1, 0]"
    by (simp add: slice_from_def argsort_pair)
  have "\<exists>results st'.
      retrieve_recipes ''Chicken'' 2 demo_state = Inr (results, st') \<and>
      deref st' results =
        map (scored (heap demo_state) (recipes (retriever demo_state)) [3 / 5, 4 / 5]) [1, 0]"
    using ranking_descending_no_tie_break [OF demo_initialized, of "''Chicken''" 2]
    unfolding demo_similarities_chicken Let_def by (auto simp: listed)
  moreover have
    "map (scored (heap demo_state) (recipes (retriever demo_state)) [3 / 5, 4 / 5]) [1, 0] =
        [[(''recipe_id'', PNum 2), (''title'', PStr ''chicken and rice''),
          (''searchable_text'', PStr ''chicken chicken chicken chicken and rice soup soup soup''),
          (''relevance_score'', PNum (4 / 5))],
         [(''recipe_id'', PNum 1), (''title'', PStr ''layered soup''),
          (''searchable_text'', PStr ''soup chicken soup chicken soup chicken soup''),
          (''relevance_score'', PNum (3 / 5))]]"
    by (simp add: scored_def demo_state_def demo_corpus_def)
  ultimately show ?thesis using demo_initialized by simp
qed

text \<open>
  Claim C2 as stated fails: with a query that matches nothing both recipes score
  \<open>0\<close>, \<open>argsort\<close> lists the two equal keys in index order, and the second recipe
  of the store is returned before the first.
\<close>

theorem ranking_tie_order_counterexample:
  "query_similarities (retriever demo_state) ''tofu'' = Inr [0, 0] \<and>
   retrieve_recipes ''tofu'' 2 demo_state =
     Inr ([2, 3],
          demo_state\<lparr>heap := demo_corpus @
            [[(''recipe_id'', PNum 2), (''title'', PStr ''chicken and rice''),
              (''searchable_text'', PStr ''chicken chicken chicken chicken and rice soup soup soup''),
              (''relevance_score'', PNum 0)],
             [(''recipe_id'', PNum 1), (''title'', PStr ''layered soup''),
              (''searchable_text'', PStr ''soup chicken soup chicken soup chicken soup''),
              (''relevance_score'', PNum 0)]]\<rparr>)"
proof -
  have "retrieve_recipes ''tofu'' 2 demo_state =
      Inr ([length demo_corpus..<length demo_corpus + 2],
           demo_state\<lparr>heap := demo_corpus @ map (scored demo_corpus [0, 1] [0, 0]) [1, 0]\<rparr>)"
    using retrieve_recipes_result [OF demo_initialized demo_similarities_tofu, of 2]
    by (simp add: demo_top_k demo_heap demo_recipes)
  moreover have "[length demo_corpus..<length demo_corpus + 2] = [2, 3]"
    by (simp add: demo_corpus_def)
  moreover have "map (scored demo_corpus [0, 1] [0, 0]) [1, 0] =
        [[(''recipe_id'', PNum 2), (''title'', PStr ''chicken and rice''),
          (''searchable_text'', PStr ''chicken chicken chicken chicken and rice soup soup soup''),
          (''relevance_score'', PNum 0)],
         [(''recipe_id'', PNum 1), (''title'', PStr ''layered soup''),
          (''searchable_text'', PStr ''soup chicken soup chicken soup chicken soup''),
          (''relevance_score'', PNum 0)]]"
    by (simp add: scored_def demo_corpus_def)
  ultimately show ?thesis using demo_similarities_tofu by simp
qed

text \<open>
  Claim C3. The scores attached to the results are those of the selected documents,
  they are non-increasing, and no document left out has a higher score than any
  returned one (so none exceeds the lowest returned score). This holds for every
  \<open>k\<close>, in particular for \<open>k > 0\<close>.
\<close>

theorem top_k_correct:
  assumes "initialized st"
  shows "\<exists>sims results st'.
           query_similarities (retriever st) query = Inr sims \<and>
           retrieve_recipes query k st = Inr (results, st') \<and>
           (let idxs = top_k_indices sims k;
                scores = map (\<lambda>i. sims ! i) idxs
            in relevance_scores st' results = map (\<lambda>s. Some (PNum s)) scores \<and>
               sorted_wrt (\<lambda>a b. b \<le> a) scores \<and>
               (\<forall>j<length sims. j \<notin> set idxs \<longrightarrow> (\<forall>s\<in>set scores. sims ! j \<le> s)))"
proof -
  obtain sims where s: "query_similarities (retriever st) query = Inr sims"
    using query_similarities_ok [OF assms] by blast
  obtain results st' where r: "retrieve_recipes query k st = Inr (results, st')"
    and v: "relevance_scores st' results = map (\<lambda>i. Some (PNum (sims ! i))) (top_k_indices sims k)"
    using retrieve_recipes_values [OF assms s] by blast
  have "sorted_wrt (\<lambda>a b. b \<le> a) (map (\<lambda>i. sims ! i) (top_k_indices sims k))"
    using top_k_indices_descending [of sims k] by (simp add: sorted_wrt_map)
  moreover have "\<forall>j<length sims. j \<notin> set (top_k_indices sims k) \<longrightarrow>
      (\<forall>s\<in>set (map (\<lambda>i. sims ! i) (top_k_indices sims k)). sims ! j \<le> s)"
    using top_k_indices_dominate [of _ sims k] by auto
  ultimately show ?thesis using s r v by (simp add: Let_def comp_def)
qed

theorem top_k_correct_witness:
  "initialized demo_state \<and>
   (\<exists>results st'.
      retrieve_recipes ''Chicken'' 1 demo_state = Inr (results, st') \<and>
      relevance_scores st' results = [Some (PNum (4 / 5))])"
proof -
  have "\<exists>results st'.
      retrieve_recipes ''Chicken'' 1 demo_state = Inr (results, st') \<and>
      relevance_scores st' results = map (\<lambda>s. Some (PNum s)) [4 / 5]"
    using top_k_correct [OF demo_initialized, of "''Chicken''" 1]
    unfolding demo_similarities_chicken Let_def by (auto simp: demo_top_k)
  then show ?thesis using demo_initialized by simp
qed

text \<open>
  Claim C4. When no term of the analysed query is in the fitted vocabulary, the query
  vector is all zero, no error is raised and every result carries the score \<open>0\<close>.
  The number of results is \<open>min(k, corpus_size)\<close> for \<open>k > 0\<close>; for \<open>k = 0\<close> it is
  the corpus size, as in claim C1, and the example returns two recipes there.
\<close>

theorem zero_overlap_query:
  assumes "initialized st"
    and "\<forall>t\<in>set (analyze (stop_words (vectorizer (retriever st))) (lower query)).
           t \<notin> set (fitted_vocabulary (vectorizer (retriever st)))"
  shows "transform (vectorizer (retriever st)) [lower query] =
           [replicate (length (fitted_vocabulary (vectorizer (retriever st)))) 0] \<and>
         (\<exists>results st'.
            retrieve_recipes query k st = Inr (results, st') \<and>
            relevance_scores st' results = replicate (length results) (Some (PNum 0)) \<and>
            length results =
              (if 0 < k then min (nat k) (length (recipes (retriever st)))
               else if k = 0 then length (recipes (retriever st))
               else length (recipes (retriever st)) - nat (- k)))"
proof -
  let ?n = "length (recipes (retriever st))"
  have voc: "length (fitted_idf (vectorizer (retriever st))) =
      length (fitted_vocabulary (vectorizer (retriever st)))"
    using assms(1) by (auto simp: initialized_def Let_def)
  have s: "query_similarities (retriever st) query = Inr (replicate ?n 0)"
    using query_similarities_absent [OF assms] .
  obtain results st' where r: "retrieve_recipes query k st = Inr (results, st')"
    and v: "relevance_scores st' results =
        map (\<lambda>i. Some (PNum (replicate ?n 0 ! i))) (top_k_indices (replicate ?n 0) k)"
    using retrieve_recipes_values [OF assms(1) s] by blast
  have len: "length results = length (top_k_indices (replicate ?n 0) k)"
    using arg_cong [OF v, of length] by (simp add: relevance_scores_def deref_def)
  have "\<forall>i\<in>set (top_k_indices (replicate ?n 0) k). i < ?n"
    using set_top_k_indices [of "replicate ?n 0" k] by auto
  then have "map (\<lambda>i. Some (PNum (replicate ?n 0 ! i))) (top_k_indices (replicate ?n 0) k) =
      replicate (length (top_k_indices (replicate ?n 0) k)) (Some (PNum 0))"
    by (intro replicate_eqI) auto
  then have "relevance_scores st' results = replicate (length results) (Some (PNum 0))"
    using v len by simp
  moreover have "length results =
      (if 0 < k then min (nat k) ?n else if k = 0 then ?n else ?n - nat (- k))"
    using len by (simp add: length_top_k_indices)
  ultimately show ?thesis
    using r transform_absent [OF voc assms(2)] by blast
qed

theorem zero_overlap_query_witness:
  "initialized demo_state \<and>
   list_all (\<lambda>t. t \<notin> set (fitted_vocabulary (vectorizer (retriever demo_state))))
     (analyze (stop_words (vectorizer (retriever demo_state))) (lower ''Tofu and rice'')) \<and>
   (\<exists>results st'.
      retrieve_recipes ''Tofu and rice'' 0 demo_state = Inr (results, st') \<and>
      relevance_scores st' results = [Some (PNum 0), Some (PNum 0)] \<and> length results = 2) \<and>
   (\<exists>results st'.
      retrieve_recipes ''Tofu and rice'' 1 demo_state = Inr (results, st') \<and>
      relevance_scores st' results = [Some (PNum 0)] \<and> length results = 1)"
proof -
  have "\<exists>results st'.
      retrieve_recipes ''Tofu and rice'' 0 demo_state = Inr (results, st') \<and>
      relevance_scores st' results = [Some (PNum 0), Some (PNum 0)] \<and> length results = 2"
    using zero_overlap_query [OF demo_initialized demo_tofu_absent, of 0]
    by (auto simp: demo_size numeral_2_eq_2)
  moreover have "\<exists>results st'.
      retrieve_recipes ''Tofu and rice'' 1 demo_state = Inr (results, st') \<and>
      relevance_scores st' results = [Some (PNum 0)] \<and> length results = 1"
    using zero_overlap_query [OF demo_initialized demo_tofu_absent, of 1]
    by (auto simp: demo_size)
  ultimately show ?thesis
    using demo_initialized demo_tofu_absent by (simp add: list_all_iff)
qed

text \<open>
  Claim C5. A call leaves the retriever object (recipe list, vectorizer, matrix) as it
  was and changes no dictionary that existed before the call: the results are fresh
  copies, allocated behind the old heap, and the stored recipes read the same.
\<close>

theorem retrieve_recipes_frame:
  assumes "initialized st"
  shows "\<exists>results st'.
           retrieve_recipes query k st = Inr (results, st') \<and>
           retriever st' = retriever st \<and>
           take (length (heap st)) (heap st') = heap st \<and>
           deref st' (recipes (retriever st')) = deref st (recipes (retriever st)) \<and>
           list_all (\<lambda>a. length (heap st) \<le> a \<and> a < length (heap st')) results \<and>
           initialized st'"
proof -
  obtain sims where s: "query_similarities (retriever st) query = Inr sims"
    using query_similarities_ok [OF assms] by blast
  let ?xs = "map (scored (heap st) (recipes (retriever st)) sims) (top_k_indices sims k)"
  have refs: "\<forall>a\<in>set (recipes (retriever st)). a < length (heap st)"
    using assms by (simp add: initialized_def Let_def list_all_iff)
  have "deref (st\<lparr>heap := heap st @ ?xs\<rparr>) (recipes (retriever st)) =
      deref st (recipes (retriever st))"
    using deref_old [OF refs, where st = st and xs = ?xs] by (simp add: deref_def)
  then show ?thesis
    unfolding retrieve_recipes_result [OF assms s]
    using initialized_grow [OF assms, of ?xs]
    by (simp add: list_all_iff)
qed

theorem retrieve_recipes_frame_witness:
  "initialized demo_state \<and>
   (\<exists>results st'.
      retrieve_recipes ''Chicken'' 2 demo_state = Inr (results, st') \<and>
      retriever st' = retriever demo_state \<and>
      take 2 (heap st') = demo_corpus \<and>
      deref st' (recipes (retriever st')) = demo_corpus)"
proof -
  have "deref demo_state (recipes (retriever demo_state)) = demo_corpus"
    by (simp add: deref_def demo_state_def demo_corpus_def)
  moreover have "length (heap demo_state) = 2"
    by (simp add: demo_state_def demo_corpus_def)
  ultimately show ?thesis
    using retrieve_recipes_frame [OF demo_initialized, of "''Chicken''" 2] demo_initialized
    by (auto simp: demo_heap)
qed

text \<open>
  Claim C6, as amended. When the corpus is empty, or every document is empty after
  tokenization and stop-word filtering, building the index fails with the
  \<open>ValueError\<close> of the vectorizer and \<open>__init__\<close> yields no retriever.
\<close>

theorem build_fails_without_vocabulary:
  assumes "loaded = [] \<or>
     (\<forall>d\<in>set loaded. \<exists>s. dict_get d ''searchable_text'' (PStr []) = PStr s \<and>
                               analyze english s = [])"
  shows "build_index english loaded [0..<length loaded] =
           Inl (ValueError ''empty vocabulary; perhaps the documents only contain stop words'') \<and>
         RecipeRetriever_init english loaded =
           Inl (ValueError ''empty vocabulary; perhaps the documents only contain stop words'')"
proof -
  let ?docs = "map (\<lambda>d. dict_get d ''searchable_text'' (PStr [])) loaded"
  have "\<forall>v\<in>set ?docs. \<exists>s. v = PStr s \<and> analyze english s = []"
    using assms by auto
  then obtain docs where d: "as_documents ?docs = Inr docs"
    and e: "\<forall>s\<in>set docs. analyze english s = []"
    using as_documents_strings [of ?docs "\<lambda>s. analyze english s = []"] by blast
  have "fit_transform english ?docs =
      Inl (ValueError ''empty vocabulary; perhaps the documents only contain stop words'')"
    by (simp add: fit_transform_def d count_vocab_empty [OF e])
  then have "build_index english loaded [0..<length loaded] =
      Inl (ValueError ''empty vocabulary; perhaps the documents only contain stop words'')"
    by (simp add: build_index_def documents_of_loaded)
  then show ?thesis by (simp add: RecipeRetriever_init_def)
qed

theorem build_fails_without_vocabulary_witness:
  "RecipeRetriever_init [''the'', ''and''] [] =
     Inl (ValueError ''empty vocabulary; perhaps the documents only contain stop words'') \<and>
   RecipeRetriever_init [''the'', ''and'']
     [[(''recipe_id'', PNum 1), (''title'', PStr ''the and''),
       (''searchable_text'', PStr ''The and, a!'')],
      [(''recipe_id'', PNum 2)]] =
     Inl (ValueError ''empty vocabulary; perhaps the documents only contain stop words'')"
proof -
  have "\<forall>d\<in>set [[(''recipe_id'', PNum 1), (''title'', PStr ''the and''),
                   (''searchable_text'', PStr ''The and, a!'')],
                  [(''recipe_id'', PNum 2)]].
          \<exists>s. dict_get d ''searchable_text'' (PStr []) = PStr s \<and>
              analyze [''the'', ''and''] s = []"
    by (simp add: dict_get_def analyze_def word_ngrams_def tokenize_def is_word_char_def
        lower_def lower_char_def)
  then show ?thesis
    using build_fails_without_vocabulary [of "[]" "[''the'', ''and'']"]
      build_fails_without_vocabulary
        [of "[[(''recipe_id'', PNum 1), (''title'', PStr ''the and''),
               (''searchable_text'', PStr ''The and, a!'')],
              [(''recipe_id'', PNum 2)]]" "[''the'', ''and'']"]
    by blast
qed

text \<open>
  Claim C6 as stated names the exception \<open>IndexBuildError\<close>; the exception raised on
  the empty corpus is a \<open>ValueError\<close>.
\<close>

theorem build_error_name_counterexample:
  "RecipeRetriever_init [''the'', ''and''] [] =
     Inl (ValueError ''empty vocabulary; perhaps the documents only contain stop words'') \<and>
   exception_name (ValueError ''empty vocabulary; perhaps the documents only contain stop words'')
     \<noteq> ''IndexBuildError''"
  by (simp add: RecipeRetriever_init_def build_index_def fit_transform_def count_vocab_def)

text \<open>
  Claim C9. Two successive calls with the same query and \<open>k\<close> return equal result
  sequences (the same dictionaries with the same scores in the same order), and the
  second call does not disturb the results of the first.
\<close>

theorem retrieve_recipes_deterministic:
  assumes "initialized st"
  shows "\<exists>results1 st1 results2 st2.
           retrieve_recipes query k st = Inr (results1, st1) \<and>
           retrieve_recipes query k st1 = Inr (results2, st2) \<and>
           deref st2 results2 = deref st1 results1 \<and>
           deref st2 results1 = deref st1 results1"
proof -
  obtain sims where s: "query_similarities (retriever st) query = Inr sims"
    using query_similarities_ok [OF assms] by blast
  let ?rs = "recipes (retriever st)"
  let ?idxs = "top_k_indices sims k"
  let ?xs = "map (scored (heap st) ?rs sims) ?idxs"
  let ?r1 = "[length (heap st)..<length (heap st) + length ?idxs]"
  let ?st1 = "st\<lparr>heap := heap st @ ?xs\<rparr>"
  have first: "retrieve_recipes query k st = Inr (?r1, ?st1)"
    using retrieve_recipes_result [OF assms s] .
  have d1: "deref ?st1 ?r1 = ?xs"
    using deref_appended [where st = st and h = "heap st" and xs = ?xs] by simp
  have init1: "initialized ?st1" using initialized_grow [OF assms] .
  have s1: "query_similarities (retriever ?st1) query = Inr sims" using s by simp
  obtain results2 st2 where second: "retrieve_recipes query k ?st1 = Inr (results2, st2)"
    and d2: "deref st2 results2 = map (scored (heap ?st1) (recipes (retriever ?st1)) sims) ?idxs"
    using retrieve_recipes_values [OF init1 s1] by blast
  have len: "length sims = length ?rs"
    using query_similarities_ok [OF assms, of query] s by auto
  have refs: "\<forall>a\<in>set ?rs. a < length (heap st)"
    using assms by (simp add: initialized_def Let_def list_all_iff)
  have "\<forall>i\<in>set ?idxs. ?rs ! i < length (heap st)"
    using set_top_k_indices [of sims k] len refs by auto
  then have same: "map (scored (heap ?st1) (recipes (retriever ?st1)) sims) ?idxs = ?xs"
    by (simp add: scored_grow)
  have st2: "st2 = ?st1\<lparr>heap := heap ?st1 @
      map (scored (heap ?st1) (recipes (retriever ?st1)) sims) ?idxs\<rparr>"
    using second retrieve_recipes_result [OF init1 s1, of k] by simp
  have "\<forall>a\<in>set ?r1. a < length (heap ?st1)" by simp
  then have "deref st2 ?r1 = map (\<lambda>a. heap ?st1 ! a) ?r1"
    unfolding st2 by (rule deref_old)
  then have keep: "deref st2 ?r1 = deref ?st1 ?r1" by (simp add: deref_def)
  show ?thesis
    using first second d1 d2 same keep by simp
qed

theorem retrieve_recipes_deterministic_witness:
  "initialized demo_state \<and>
   (\<exists>results1 st1 results2 st2.
      retrieve_recipes ''Chicken'' 1 demo_state = Inr (results1, st1) \<and>
      retrieve_recipes ''Chicken'' 1 st1 = Inr (results2, st2) \<and>
      deref st2 results2 = deref st1 results1 \<and>
      deref st2 results1 = deref st1 results1)"
  using retrieve_recipes_deterministic [OF demo_initialized, of "''Chicken''" 1] demo_initialized
  by simp

end
